theory Spec2Isabelle
  imports Main
begin

section \<open>MediaController: the MPRIS control-surface adapter\<close>

text \<open>
  A shallow embedding of \<^verbatim>\<open>src/MediaController.py\<close>. The controller object is a
  record that is passed through every operation; the D-Bus session bus, the HTTP client,
  the file system and the Python library functions the code calls are an environment
  record of functions over an abstract world \<open>'w\<close>, so every theorem holds for every
  behaviour of the remote endpoints. A bus call either replies or raises
  \<^verbatim>\<open>dbus.exceptions.DBusException\<close>; property reads observe the world, method
  calls change it.
\<close>

subsection \<open>The list compression function\<close>

text \<open>
  \<^verbatim>\<open>compress_list\<close> and its local \<^verbatim>\<open>all_equal\<close>. The elements are compared with
  \<^verbatim>\<open>==\<close>; \<^verbatim>\<open>iterable[0]\<close> is only read when the list is not empty.
\<close>

definition all_equal :: "'a list \<Rightarrow> bool" where
  "all_equal iterable =
     (if card (set iterable) = 0 then True
      else (let first_element = iterable ! 0;
                first_element_occurrences =
                  fold (\<lambda>element n. if element = first_element then n + 1 else n) iterable (0::nat)
            in first_element_occurrences = length iterable))"

definition compress_list :: "'a list \<Rightarrow> 'a list option" where
  "compress_list xs =
     (if length xs = 0 then None
      else if all_equal xs then Some [xs ! 0]
      else Some xs)"

subsection \<open>Exceptions, bus replies and the data of the bus\<close>

text \<open>
  The exception classes that can leave a method of the controller. A bus call of
  dbus-python raises \<^verbatim>\<open>DBusException\<close> or replies, so a reply is a type of its own
  and every \<^verbatim>\<open>except dbus.exceptions.DBusException\<close> is a case on it.
\<close>

datatype exn = AttributeError | KeyError | IndexError | ValueError | OSError

datatype 'a reply = Reply 'a | DBusException

text \<open>A proxy object, as \<^verbatim>\<open>session_bus.get_object\<close> returns it; \<^verbatim>\<open>dbus.Interface\<close>
  wraps the same proxy, so an interface is modelled by its proxy.\<close>

record player =
  bus_name :: string

datatype player_method = Pause | Play | Stop | Next | Previous

text \<open>The MPRIS metadata dictionary: the three keys the code reads, absent or present.\<close>

record metadata =
  xesam_title :: "string option"
  xesam_artist :: "string list option"
  mpris_artUrl :: "string option"

text \<open>The HTTP response: the \<^verbatim>\<open>content-type\<close> header (absent or present) and the body.\<close>

record response =
  content_type :: "string option"
  content :: string

text \<open>What the controller does to the outside: the remote method calls and the HTTP
  requests, in the order they are made.\<close>

datatype event = Call string player_method | HttpGet string

text \<open>
  The environment. Bus calls: \<^verbatim>\<open>list_names\<close>, \<^verbatim>\<open>get_object\<close>, the three properties
  read with \<^verbatim>\<open>Properties.Get\<close>, and the player methods. \<^verbatim>\<open>requests.get\<close> gives no
  response when it raises \<^verbatim>\<open>RequestException\<close>; \<^verbatim>\<open>os.makedirs\<close> and writing the file
  give False when they raise \<^verbatim>\<open>OSError\<close>. \<^verbatim>\<open>gl.DATA_PATH\<close> is a constant of another
  module, and \<^verbatim>\<open>base64.b64decode\<close> (None when it raises \<^verbatim>\<open>binascii.Error\<close>, a
  \<^verbatim>\<open>ValueError\<close>), \<^verbatim>\<open>urlparse(url).path\<close> and the \<^verbatim>\<open>os.path\<close> functions are library
  functions: all are parameters.
\<close>

record 'w env =
  list_names :: "'w \<Rightarrow> string list reply"
  get_object :: "'w \<Rightarrow> string \<Rightarrow> player reply"
  Identity :: "'w \<Rightarrow> player \<Rightarrow> string reply"
  PlaybackStatus :: "'w \<Rightarrow> player \<Rightarrow> string reply"
  Metadata :: "'w \<Rightarrow> player \<Rightarrow> metadata reply"
  invoke :: "'w \<Rightarrow> player \<Rightarrow> player_method \<Rightarrow> unit reply \<times> 'w"
  requests_get :: "'w \<Rightarrow> string \<Rightarrow> response option \<times> 'w"
  makedirs :: "'w \<Rightarrow> string \<Rightarrow> bool \<times> 'w"
  write_file :: "'w \<Rightarrow> string \<Rightarrow> string \<Rightarrow> bool \<times> 'w"
  DATA_PATH :: string
  b64decode :: "string \<Rightarrow> string option"
  urlparse_path :: "string \<Rightarrow> string"
  path_basename :: "string \<Rightarrow> string"
  path_splitext :: "string \<Rightarrow> string \<times> string"
  path_join :: "string \<Rightarrow> string \<Rightarrow> string"
  path_dirname :: "string \<Rightarrow> string"

subsection \<open>The controller\<close>

text \<open>
  The fields of \<^verbatim>\<open>MediaController\<close>: \<^verbatim>\<open>_previously_playing\<close>, \<^verbatim>\<open>_last_active_player\<close>
  and \<^verbatim>\<open>mpris_players\<close> (None while the attribute has never been assigned), the table of
  \<^verbatim>\<open>@lru_cache\<close> on \<^verbatim>\<open>get_web_thumnail\<close> (most recently used first), the world and the
  events so far.
\<close>

record 'w state =
  previously_playing :: "string set"
  last_active_player :: "string option"
  mpris_players :: "player list option"
  lru_cache :: "(string \<times> string option) list"
  world :: 'w
  trace :: "event list"

fun get_objects :: "'w env \<Rightarrow> 'w \<Rightarrow> string list \<Rightarrow> player list \<Rightarrow> player list reply" where
  "get_objects env w [] players = Reply players"
| "get_objects env w (i # names) players =
     (if take 22 i = ''org.mpris.MediaPlayer2''
      then (case get_object env w i of
              Reply obj \<Rightarrow> get_objects env w names (players @ [obj])
            | DBusException \<Rightarrow> DBusException)
      else get_objects env w names players)"

text \<open>\<^verbatim>\<open>update_players\<close>: any exception leaves the registry as it was.\<close>

definition update_players :: "'w env \<Rightarrow> 'w state \<Rightarrow> 'w state" where
  "update_players env s =
     (case list_names env (world s) of
        DBusException \<Rightarrow> s
      | Reply names \<Rightarrow>
          (case get_objects env (world s) names [] of
             DBusException \<Rightarrow> s
           | Reply players \<Rightarrow> s\<lparr>mpris_players := Some players\<rparr>))"

text \<open>\<^verbatim>\<open>__init__\<close>, on a world whose session bus could be opened.\<close>

definition init :: "'w env \<Rightarrow> 'w \<Rightarrow> 'w state" where
  "init env w =
     update_players env
       \<lparr>previously_playing = {}, last_active_player = None, mpris_players = None,
        lru_cache = [], world = w, trace = []\<rparr>"

definition get_bus_name :: "player \<Rightarrow> string" where
  "get_bus_name player = bus_name player"

definition get_playback_status :: "'w env \<Rightarrow> 'w state \<Rightarrow> player \<Rightarrow> string option" where
  "get_playback_status env s iface =
     (case PlaybackStatus env (world s) iface of
        Reply st \<Rightarrow> Some st
      | DBusException \<Rightarrow> None)"

text \<open>A player method called on an interface: the call is an event, it changes the world,
  and it returns normally (True) or raises \<^verbatim>\<open>DBusException\<close> (False).\<close>

definition remote_call :: "'w env \<Rightarrow> player \<Rightarrow> player_method \<Rightarrow> 'w state \<Rightarrow> bool \<times> 'w state" where
  "remote_call env iface m s =
     (case invoke env (world s) iface m of
        (r, w') \<Rightarrow> (r = Reply (), s\<lparr>world := w', trace := trace s @ [Call (bus_name iface) m]\<rparr>))"

fun names_loop :: "'w env \<Rightarrow> 'w \<Rightarrow> bool \<Rightarrow> player list \<Rightarrow> string list \<Rightarrow> string list" where
  "names_loop env w remove_duplicates [] names = names"
| "names_loop env w remove_duplicates (player # players) names =
     (case Identity env w player of
        DBusException \<Rightarrow> names
      | Reply name \<Rightarrow>
          if remove_duplicates \<and> name \<in> set names
          then names_loop env w remove_duplicates players names
          else names_loop env w remove_duplicates players (names @ [name]))"

text \<open>\<^verbatim>\<open>get_player_names\<close>: the whole loop is inside one \<^verbatim>\<open>try\<close>, and
  \<^verbatim>\<open>except Exception\<close> also catches the unassigned attribute.\<close>

definition get_player_names :: "'w env \<Rightarrow> bool \<Rightarrow> 'w state \<Rightarrow> (exn + string list) \<times> 'w state" where
  "get_player_names env remove_duplicates s =
     (case mpris_players s of
        None \<Rightarrow> (Inr [], s)
      | Some players \<Rightarrow> (Inr (names_loop env (world s) remove_duplicates players []), s))"

fun active_loop :: "'w env \<Rightarrow> 'w \<Rightarrow> player list \<Rightarrow> string option" where
  "active_loop env w [] = None"
| "active_loop env w (player # players) =
     (case PlaybackStatus env w player of
        DBusException \<Rightarrow> active_loop env w players
      | Reply st \<Rightarrow>
          if st = ''Playing''
          then (case Identity env w player of
                  DBusException \<Rightarrow> active_loop env w players
                | Reply name \<Rightarrow> Some name)
          else active_loop env w players)"

definition get_active_player_name ::
  "'w env \<Rightarrow> 'w state \<Rightarrow> (exn + string option) \<times> 'w state" where
  "get_active_player_name env s =
     (let s1 = update_players env s in
      case mpris_players s1 of
        None \<Rightarrow> (Inl AttributeError, s1)
      | Some players \<Rightarrow>
          (case active_loop env (world s1) players of
             Some name \<Rightarrow> (Inr (Some name), s1\<lparr>last_active_player := Some name\<rparr>)
           | None \<Rightarrow> (Inr (last_active_player s1), s1)))"

fun matching_ifaces_loop ::
  "'w env \<Rightarrow> 'w \<Rightarrow> string option \<Rightarrow> player list \<Rightarrow> player list \<Rightarrow> player list" where
  "matching_ifaces_loop env w player_name [] ifaces = ifaces"
| "matching_ifaces_loop env w player_name (player # rest) ifaces =
     (case Identity env w player of
        DBusException \<Rightarrow> matching_ifaces_loop env w player_name rest ifaces
      | Reply ident \<Rightarrow>
          if player_name \<in> set [None, Some '''', Some ident]
          then matching_ifaces_loop env w player_name rest (ifaces @ [player])
          else matching_ifaces_loop env w player_name rest ifaces)"

definition get_matching_ifaces ::
  "'w env \<Rightarrow> string option \<Rightarrow> 'w state \<Rightarrow> (exn + player list) \<times> 'w state" where
  "get_matching_ifaces env player_name s =
     (let s1 = update_players env s in
      case mpris_players s1 of
        None \<Rightarrow> (Inl AttributeError, s1)
      | Some players \<Rightarrow> (Inr (matching_ifaces_loop env (world s1) player_name players []), s1))"

fun matching_players_loop ::
  "'w env \<Rightarrow> 'w \<Rightarrow> string option \<Rightarrow> player list \<Rightarrow> (string \<times> player) list
     \<Rightarrow> (string \<times> player) list" where
  "matching_players_loop env w player_name [] players = players"
| "matching_players_loop env w player_name (player # rest) players =
     (case Identity env w player of
        DBusException \<Rightarrow> matching_players_loop env w player_name rest players
      | Reply ident \<Rightarrow>
          if player_name \<in> set [None, Some '''', Some ident]
          then matching_players_loop env w player_name rest (players @ [(get_bus_name player, player)])
          else matching_players_loop env w player_name rest players)"

definition get_matching_players ::
  "'w env \<Rightarrow> string option \<Rightarrow> 'w state \<Rightarrow> (exn + (string \<times> player) list) \<times> 'w state" where
  "get_matching_players env player_name s =
     (let s1 = update_players env s in
      case mpris_players s1 of
        None \<Rightarrow> (Inl AttributeError, s1)
      | Some players \<Rightarrow> (Inr (matching_players_loop env (world s1) player_name players []), s1))"

subsection \<open>Pause, play and toggle\<close>

fun pause_loop ::
  "'w env \<Rightarrow> (string \<times> player) list \<Rightarrow> bool list \<Rightarrow> string set \<Rightarrow> 'w state
     \<Rightarrow> bool list \<times> string set \<times> 'w state" where
  "pause_loop env [] status currently_playing s = (status, currently_playing, s)"
| "pause_loop env ((b, iface) # players) status currently_playing s =
     (let playback_status = get_playback_status env s iface;
          currently_playing' =
            (if playback_status = Some ''Playing'' then insert b currently_playing
             else currently_playing)
      in case remote_call env iface Pause s of
           (ok, s') \<Rightarrow> pause_loop env players (status @ [ok]) currently_playing' s')"

definition pause ::
  "'w env \<Rightarrow> string option \<Rightarrow> 'w state \<Rightarrow> (exn + bool list option) \<times> 'w state" where
  "pause env player_name s =
     (case get_matching_players env player_name s of
        (Inl e, s1) \<Rightarrow> (Inl e, s1)
      | (Inr players, s1) \<Rightarrow>
          (case pause_loop env players [] {} s1 of
             (status, currently_playing, s2) \<Rightarrow>
               (Inr (compress_list status),
                if currently_playing \<noteq> {}
                then s2\<lparr>previously_playing := currently_playing\<rparr>
                else s2)))"

fun play_loop ::
  "'w env \<Rightarrow> string option \<Rightarrow> (string \<times> player) list \<Rightarrow> bool list \<Rightarrow> 'w state
     \<Rightarrow> bool list \<times> 'w state" where
  "play_loop env player_name [] status s = (status, s)"
| "play_loop env player_name ((b, iface) # players) status s =
     (if player_name \<noteq> None
      then (case remote_call env iface Play s of
              (ok, s') \<Rightarrow> play_loop env player_name players (status @ [ok]) s')
      else if previously_playing s \<noteq> {}
      then (if b \<in> previously_playing s
            then (case remote_call env iface Play s of
                    (ok, s') \<Rightarrow> play_loop env player_name players (status @ [ok]) s')
            else play_loop env player_name players (status @ [True]) s)
      else (case remote_call env iface Play s of
              (ok, s') \<Rightarrow> play_loop env player_name players (status @ [ok]) s'))"

definition play ::
  "'w env \<Rightarrow> string option \<Rightarrow> 'w state \<Rightarrow> (exn + bool list option) \<times> 'w state" where
  "play env player_name s =
     (case get_matching_players env player_name s of
        (Inl e, s1) \<Rightarrow> (Inl e, s1)
      | (Inr players, s1) \<Rightarrow>
          (case play_loop env player_name players [] s1 of
             (status, s2) \<Rightarrow> (Inr (compress_list status), s2\<lparr>previously_playing := {}\<rparr>)))"

fun any_playing :: "'w env \<Rightarrow> 'w state \<Rightarrow> (string \<times> player) list \<Rightarrow> bool" where
  "any_playing env s [] = False"
| "any_playing env s ((b, iface) # players) =
     (if get_playback_status env s iface = Some ''Playing'' then True
      else any_playing env s players)"

definition toggle ::
  "'w env \<Rightarrow> string option \<Rightarrow> 'w state \<Rightarrow> (exn + bool list option) \<times> 'w state" where
  "toggle env player_name s =
     (case get_matching_players env player_name s of
        (Inl e, s1) \<Rightarrow> (Inl e, s1)
      | (Inr players, s1) \<Rightarrow>
          if any_playing env s1 players then pause env player_name s1
          else play env player_name s1)"

subsection \<open>Stop, next and previous\<close>

text \<open>The three loops are the same but for the method called; the interface call raises
  \<^verbatim>\<open>DBusException\<close> only, so the \<^verbatim>\<open>(KeyError, IndexError)\<close> handler of
  \<^verbatim>\<open>previous\<close> is never entered.\<close>

fun command_loop ::
  "'w env \<Rightarrow> player_method \<Rightarrow> player list \<Rightarrow> bool list \<Rightarrow> 'w state \<Rightarrow> bool list \<times> 'w state" where
  "command_loop env m [] status s = (status, s)"
| "command_loop env m (iface # ifaces) status s =
     (case remote_call env iface m s of
        (ok, s') \<Rightarrow> command_loop env m ifaces (status @ [ok]) s')"

definition command ::
  "'w env \<Rightarrow> player_method \<Rightarrow> string option \<Rightarrow> 'w state \<Rightarrow> (exn + bool list option) \<times> 'w state" where
  "command env m player_name s =
     (case get_matching_ifaces env player_name s of
        (Inl e, s1) \<Rightarrow> (Inl e, s1)
      | (Inr ifaces, s1) \<Rightarrow>
          (case command_loop env m ifaces [] s1 of
             (status, s2) \<Rightarrow> (Inr (compress_list status), s2)))"

definition stop ::
  "'w env \<Rightarrow> string option \<Rightarrow> 'w state \<Rightarrow> (exn + bool list option) \<times> 'w state" where
  "stop env player_name s = command env Stop player_name s"

definition next_track ::
  "'w env \<Rightarrow> string option \<Rightarrow> 'w state \<Rightarrow> (exn + bool list option) \<times> 'w state" where
  "next_track env player_name s = command env Next player_name s"

definition previous ::
  "'w env \<Rightarrow> string option \<Rightarrow> 'w state \<Rightarrow> (exn + bool list option) \<times> 'w state" where
  "previous env player_name s = command env Previous player_name s"

subsection \<open>Status, title and artist\<close>

fun status_loop :: "'w env \<Rightarrow> 'w \<Rightarrow> player list \<Rightarrow> string option list \<Rightarrow> string option list" where
  "status_loop env w [] acc = acc"
| "status_loop env w (iface # ifaces) acc =
     (case PlaybackStatus env w iface of
        Reply st \<Rightarrow> status_loop env w ifaces (acc @ [Some st])
      | DBusException \<Rightarrow> status_loop env w ifaces (acc @ [None]))"

definition status ::
  "'w env \<Rightarrow> string option \<Rightarrow> 'w state \<Rightarrow> (exn + string option list option) \<times> 'w state" where
  "status env player_name s =
     (case get_matching_ifaces env player_name s of
        (Inl e, s1) \<Rightarrow> (Inl e, s1)
      | (Inr ifaces, s1) \<Rightarrow> (Inr (compress_list (status_loop env (world s1) ifaces [])), s1))"

text \<open>\<^verbatim>\<open>metadata['xesam:title']\<close> raises \<^verbatim>\<open>KeyError\<close> on an absent key, which the handler
  turns into None.\<close>

fun title_loop :: "'w env \<Rightarrow> 'w \<Rightarrow> player list \<Rightarrow> string option list \<Rightarrow> string option list" where
  "title_loop env w [] titles = titles"
| "title_loop env w (iface # ifaces) titles =
     (case Metadata env w iface of
        DBusException \<Rightarrow> title_loop env w ifaces (titles @ [None])
      | Reply md \<Rightarrow>
          (case xesam_title md of
             None \<Rightarrow> title_loop env w ifaces (titles @ [None])
           | Some t \<Rightarrow> title_loop env w ifaces (titles @ [Some t])))"

definition title ::
  "'w env \<Rightarrow> string option \<Rightarrow> 'w state \<Rightarrow> (exn + string option list option) \<times> 'w state" where
  "title env player_name s =
     (case get_matching_ifaces env player_name s of
        (Inl e, s1) \<Rightarrow> (Inl e, s1)
      | (Inr ifaces, s1) \<Rightarrow> (Inr (compress_list (title_loop env (world s1) ifaces [])), s1))"

text \<open>\<^verbatim>\<open>metadata['xesam:artist'][0]\<close>: \<^verbatim>\<open>KeyError\<close> on an absent key, \<^verbatim>\<open>IndexError\<close> on
  an empty sequence, both handled.\<close>

fun artist_loop :: "'w env \<Rightarrow> 'w \<Rightarrow> player list \<Rightarrow> string option list \<Rightarrow> string option list" where
  "artist_loop env w [] titles = titles"
| "artist_loop env w (iface # ifaces) titles =
     (case Metadata env w iface of
        DBusException \<Rightarrow> artist_loop env w ifaces (titles @ [None])
      | Reply md \<Rightarrow>
          (case xesam_artist md of
             None \<Rightarrow> artist_loop env w ifaces (titles @ [None])
           | Some [] \<Rightarrow> artist_loop env w ifaces (titles @ [None])
           | Some (a # _) \<Rightarrow> artist_loop env w ifaces (titles @ [Some a])))"

definition artist ::
  "'w env \<Rightarrow> string option \<Rightarrow> 'w state \<Rightarrow> (exn + string option list option) \<times> 'w state" where
  "artist env player_name s =
     (case get_matching_ifaces env player_name s of
        (Inl e, s1) \<Rightarrow> (Inl e, s1)
      | (Inr ifaces, s1) \<Rightarrow> (Inr (compress_list (artist_loop env (world s1) ifaces [])), s1))"

subsection \<open>Python string methods\<close>

definition startswith :: "string \<Rightarrow> string \<Rightarrow> bool" where
  "startswith s p = (take (length p) s = p)"

text \<open>\<^verbatim>\<open>s.split(sep)\<close> for a separator of one character.\<close>

fun split_char :: "char \<Rightarrow> string \<Rightarrow> string list" where
  "split_char sep [] = [[]]"
| "split_char sep (c # cs) =
     (if c = sep then [] # split_char sep cs
      else (case split_char sep cs of
              [] \<Rightarrow> [[c]]
            | p # ps \<Rightarrow> (c # p) # ps))"

text \<open>\<^verbatim>\<open>s.split(sep, 1)\<close>: one part when the separator does not occur, else two.\<close>

definition split_once :: "char \<Rightarrow> string \<Rightarrow> string list" where
  "split_once sep s =
     (case dropWhile (\<lambda>c. c \<noteq> sep) s of
        [] \<Rightarrow> [s]
      | _ # rest \<Rightarrow> [takeWhile (\<lambda>c. c \<noteq> sep) s, rest])"

text \<open>\<^verbatim>\<open>s.replace(old, new)\<close>: every occurrence, left to right, not overlapping.\<close>

function replace_loop :: "string \<Rightarrow> string \<Rightarrow> string \<Rightarrow> string" where
  "replace_loop old new [] = []"
| "replace_loop old new (c # cs) =
     (if old \<noteq> [] \<and> take (length old) (c # cs) = old
      then new @ replace_loop old new (drop (length old) (c # cs))
      else c # replace_loop old new cs)"
  by pat_completeness auto
termination
  by (relation "measure (\<lambda>(old, new, s). length s)") auto

definition str_replace :: "string \<Rightarrow> string \<Rightarrow> string \<Rightarrow> string" where
  "str_replace old new s =
     (if old = [] then new @ concat (map (\<lambda>c. c # new) s)
      else replace_loop old new s)"

subsection \<open>Downloading and memoizing web thumbnails\<close>

definition get_file_name_from_url :: "'w env \<Rightarrow> string \<Rightarrow> string" where
  "get_file_name_from_url env url = path_basename env (urlparse_path env url)"

text \<open>
  \<^verbatim>\<open>download_file\<close>. The request is an event whether it raises or not; a
  \<^verbatim>\<open>RequestException\<close> returns None. A response without a \<^verbatim>\<open>content-type\<close> header
  raises \<^verbatim>\<open>KeyError\<close>, a content type that does not split into two parts at \<^verbatim>\<open>/\<close>
  raises \<^verbatim>\<open>ValueError\<close> (the tuple assignment), and the file system raises
  \<^verbatim>\<open>OSError\<close>. Reading the body of a response that was received is taken to succeed.
\<close>

definition download_file ::
  "'w env \<Rightarrow> string \<Rightarrow> string \<Rightarrow> string option \<Rightarrow> 'w state \<Rightarrow> (exn + string option) \<times> 'w state" where
  "download_file env url path file_name s =
     (case requests_get env (world s) url of
        (r, w1) \<Rightarrow>
          (let s1 = s\<lparr>world := w1, trace := trace s @ [HttpGet url]\<rparr> in
           case r of
             None \<Rightarrow> (Inr None, s1)
           | Some response \<Rightarrow>
               (let file_name1 = (case file_name of
                                    None \<Rightarrow> get_file_name_from_url env url
                                  | Some f \<Rightarrow> f);
                    file_name2 = fst (path_splitext env file_name1)
                in case content_type response of
                     None \<Rightarrow> (Inl KeyError, s1)
                   | Some ct \<Rightarrow>
                       (case split_char CHR ''/'' ct of
                          [_, extension] \<Rightarrow>
                            (let file_name3 = file_name2 @ ''.'' @ extension;
                                 path1 = path_join env path file_name3
                             in case (if path_dirname env path1 \<noteq> ''''
                                      then makedirs env w1 (path_dirname env path1)
                                      else (True, w1)) of
                                  (False, w2) \<Rightarrow> (Inl OSError, s1\<lparr>world := w2\<rparr>)
                                | (True, w2) \<Rightarrow>
                                    (case write_file env w2 path1 (content response) of
                                       (False, w3) \<Rightarrow> (Inl OSError, s1\<lparr>world := w3\<rparr>)
                                     | (True, w3) \<Rightarrow> (Inr (Some path1), s1\<lparr>world := w3\<rparr>)))
                        | _ \<Rightarrow> (Inl ValueError, s1)))))"

text \<open>
  \<^verbatim>\<open>@lru_cache\<close> is written without arguments, so the table has the default
  \<^verbatim>\<open>maxsize\<close> of functools, 128. A hit returns the stored result and makes the entry the
  most recently used; a miss calls the function and, when it returns, stores the result,
  dropping the least recently used entry of a full table. When the function raises,
  nothing is stored.
\<close>

definition lru_maxsize :: nat where
  "lru_maxsize = 128"

definition get_web_thumnail ::
  "'w env \<Rightarrow> string \<Rightarrow> 'w state \<Rightarrow> (exn + string option) \<times> 'w state" where
  "get_web_thumnail env url s =
     (case map_of (lru_cache s) url of
        Some v \<Rightarrow> (Inr v, s\<lparr>lru_cache := (url, v) # filter (\<lambda>(k, _). k \<noteq> url) (lru_cache s)\<rparr>)
      | None \<Rightarrow>
          (let path = path_join env (path_join env (DATA_PATH env) ''com_core447_MediaPlugin'') ''cache''
           in case download_file env url path None s of
                (Inl e, s') \<Rightarrow> (Inl e, s')
              | (Inr v, s') \<Rightarrow>
                  (Inr v, s'\<lparr>lru_cache := take lru_maxsize ((url, v) # lru_cache s')\<rparr>)))"

subsection \<open>Thumbnails\<close>

text \<open>An entry of the thumbnail list is None, a local path, or an \<^verbatim>\<open>io.BytesIO\<close> buffer.
  A buffer compares by object identity, so it carries the position at which the loop
  created it.\<close>

datatype thumb = BytesIO nat string | Path string

text \<open>The statements of the loop body after the \<^verbatim>\<open>data:\<close> branch.\<close>

definition thumbnail_path ::
  "'w env \<Rightarrow> string \<Rightarrow> 'w state \<Rightarrow> (exn + thumb option) \<times> 'w state" where
  "thumbnail_path env path s =
     (case (if startswith path ''https'' then get_web_thumnail env path s
            else (Inr (Some path), s)) of
        (Inl e, s') \<Rightarrow> (Inl e, s')
      | (Inr None, s') \<Rightarrow> (Inr None, s')
      | (Inr (Some path1), s') \<Rightarrow>
          if path1 = '''' then (Inr None, s')
          else (Inr (Some (Path (str_replace ''file://'' '''' path1))), s'))"

text \<open>
  The body of the \<^verbatim>\<open>try\<close> for one interface; \<open>k\<close> is the length of the list so far.
  \<^verbatim>\<open>header, data = path.split(',', 1)\<close> raises \<^verbatim>\<open>ValueError\<close> when there is no comma,
  \<^verbatim>\<open>header.split(';')[1]\<close> raises \<^verbatim>\<open>IndexError\<close> when there is no semicolon.
\<close>

definition thumbnail_try ::
  "'w env \<Rightarrow> player \<Rightarrow> nat \<Rightarrow> 'w state \<Rightarrow> (exn + thumb option) \<times> 'w state" where
  "thumbnail_try env iface k s =
     (case Metadata env (world s) iface of
        DBusException \<Rightarrow> (Inr None, s)
      | Reply md \<Rightarrow>
          (case mpris_artUrl md of
             None \<Rightarrow> (Inr None, s)
           | Some path \<Rightarrow>
               if path = '''' then (Inr None, s)
               else if startswith path ''data:''
               then (case split_once CHR '','' path of
                       [header, data] \<Rightarrow>
                         (case split_char CHR '';'' header of
                            _ # encoding # _ \<Rightarrow>
                              if encoding = ''base64''
                              then (case b64decode env data of
                                      None \<Rightarrow> (Inl ValueError, s)
                                    | Some bytes \<Rightarrow> (Inr (Some (BytesIO k bytes)), s))
                              else thumbnail_path env path s
                          | _ \<Rightarrow> (Inl IndexError, s))
                     | _ \<Rightarrow> (Inl ValueError, s))
               else thumbnail_path env path s))"

fun thumbnail_loop ::
  "'w env \<Rightarrow> player list \<Rightarrow> thumb option list \<Rightarrow> 'w state
     \<Rightarrow> (exn + thumb option list) \<times> 'w state" where
  "thumbnail_loop env [] thumbnails s = (Inr thumbnails, s)"
| "thumbnail_loop env (iface # ifaces) thumbnails s =
     (case thumbnail_try env iface (length thumbnails) s of
        (Inr t, s') \<Rightarrow> thumbnail_loop env ifaces (thumbnails @ [t]) s'
      | (Inl e, s') \<Rightarrow>
          if e \<in> set [KeyError, IndexError]
          then thumbnail_loop env ifaces (thumbnails @ [None]) s'
          else (Inl e, s'))"

definition thumbnail ::
  "'w env \<Rightarrow> string option \<Rightarrow> 'w state \<Rightarrow> (exn + thumb option list option) \<times> 'w state" where
  "thumbnail env player_name s =
     (case get_matching_ifaces env player_name s of
        (Inl e, s1) \<Rightarrow> (Inl e, s1)
      | (Inr ifaces, s1) \<Rightarrow>
          (case thumbnail_loop env ifaces [] s1 of
             (Inl e, s2) \<Rightarrow> (Inl e, s2)
           | (Inr thumbnails, s2) \<Rightarrow> (Inr (compress_list thumbnails), s2)))"

subsection \<open>A concrete bus for the examples\<close>

text \<open>
  A small world to run the controller in: a list of endpoints, each with its bus name,
  identity, playback status and metadata, and a table of the web. Pause, Play and Stop
  set the status of the endpoint they are called on; the file system always succeeds.
\<close>

record endpoint =
  ep_name :: string
  ep_identity :: string
  ep_status :: string
  ep_metadata :: metadata

record test_world =
  endpoints :: "endpoint list"
  web :: "(string \<times> response) list"

definition ep_find :: "test_world \<Rightarrow> player \<Rightarrow> endpoint option" where
  "ep_find w p = find (\<lambda>e. ep_name e = bus_name p) (endpoints w)"

definition ep_reply :: "(endpoint \<Rightarrow> 'a) \<Rightarrow> test_world \<Rightarrow> player \<Rightarrow> 'a reply" where
  "ep_reply f w p = (case ep_find w p of None \<Rightarrow> DBusException | Some e \<Rightarrow> Reply (f e))"

fun status_after :: "player_method \<Rightarrow> string \<Rightarrow> string" where
  "status_after Pause st = (if st = ''Playing'' then ''Paused'' else st)"
| "status_after Play st = ''Playing''"
| "status_after Stop st = ''Stopped''"
| "status_after Next st = st"
| "status_after Previous st = st"

definition test_invoke :: "test_world \<Rightarrow> player \<Rightarrow> player_method \<Rightarrow> unit reply \<times> test_world" where
  "test_invoke w p m =
     (case ep_find w p of
        None \<Rightarrow> (DBusException, w)
      | Some _ \<Rightarrow>
          (Reply (),
           w\<lparr>endpoints :=
                map (\<lambda>e. if ep_name e = bus_name p
                          then e\<lparr>ep_status := status_after m (ep_status e)\<rparr> else e)
                  (endpoints w)\<rparr>))"

text \<open>The web: the table first; beside it the host \<^verbatim>\<open>cdn\<close> serves a PNG image at every
  path.\<close>

definition test_requests_get :: "test_world \<Rightarrow> string \<Rightarrow> response option \<times> test_world" where
  "test_requests_get w url =
     (case map_of (web w) url of
        Some r \<Rightarrow> (Some r, w)
      | None \<Rightarrow>
          if startswith url ''https://cdn/''
          then (Some \<lparr>content_type = Some ''image/png'', content = ''PNG''\<rparr>, w)
          else (None, w))"

definition test_env :: "test_world env" where
  "test_env =
     \<lparr>list_names = (\<lambda>w. Reply (''org.freedesktop.DBus'' # map ep_name (endpoints w))),
      get_object = (\<lambda>w i. Reply \<lparr>bus_name = i\<rparr>),
      Identity = ep_reply ep_identity,
      PlaybackStatus = ep_reply ep_status,
      Metadata = ep_reply ep_metadata,
      invoke = test_invoke,
      requests_get = test_requests_get,
      makedirs = (\<lambda>w d. (True, w)),
      write_file = (\<lambda>w p c. (True, w)),
      DATA_PATH = ''/data'',
      b64decode = (\<lambda>d. Some d),
      urlparse_path = (\<lambda>url. dropWhile (\<lambda>c. c \<noteq> CHR ''/'') (drop 8 url)),
      path_basename = (\<lambda>p. rev (takeWhile (\<lambda>c. c \<noteq> CHR ''/'') (rev p))),
      path_splitext = (\<lambda>p. (takeWhile (\<lambda>c. c \<noteq> CHR ''.'') p, dropWhile (\<lambda>c. c \<noteq> CHR ''.'') p)),
      path_join = (\<lambda>a b. a @ ''/'' @ b),
      path_dirname = (\<lambda>p. rev (drop 1 (dropWhile (\<lambda>c. c \<noteq> CHR ''/'') (rev p))))\<rparr>"

definition no_metadata :: metadata where
  "no_metadata = \<lparr>xesam_title = None, xesam_artist = None, mpris_artUrl = None\<rparr>"

definition test_endpoint :: "string \<Rightarrow> string \<Rightarrow> string \<Rightarrow> endpoint" where
  "test_endpoint name ident st =
     \<lparr>ep_name = name, ep_identity = ident, ep_status = st, ep_metadata = no_metadata\<rparr>"

text \<open>Three players: A and C playing, B paused.\<close>

definition bus_A :: string where "bus_A = ''org.mpris.MediaPlayer2.vlc''"
definition bus_B :: string where "bus_B = ''org.mpris.MediaPlayer2.mpv''"
definition bus_C :: string where "bus_C = ''org.mpris.MediaPlayer2.firefox''"

definition world_ABC :: test_world where
  "world_ABC =
     \<lparr>endpoints = [test_endpoint bus_A ''VLC'' ''Playing'',
                   test_endpoint bus_B ''mpv'' ''Paused'',
                   test_endpoint bus_C ''Firefox'' ''Playing''],
      web = []\<rparr>"

text \<open>The proxy objects of the three players.\<close>

definition player_A :: player where "player_A = \<lparr>bus_name = bus_A\<rparr>"
definition player_B :: player where "player_B = \<lparr>bus_name = bus_B\<rparr>"
definition player_C :: player where "player_C = \<lparr>bus_name = bus_C\<rparr>"

text \<open>One player with an artwork reference, and the controller after pause("VLC") on the
  three players: the resume set holds A.\<close>

definition world_art :: "string \<Rightarrow> test_world" where
  "world_art url =
     \<lparr>endpoints = [\<lparr>ep_name = bus_A, ep_identity = ''VLC'', ep_status = ''Playing'',
                     ep_metadata = no_metadata\<lparr>mpris_artUrl := Some url\<rparr>\<rparr>],
      web = []\<rparr>"

definition armed_A :: "test_world state" where
  "armed_A = snd (pause test_env (Some ''VLC'') (init test_env world_ABC))"




definition world_twins :: test_world where
  "world_twins =
     \<lparr>endpoints = [test_endpoint ''org.mpris.MediaPlayer2.vlc.instance1'' ''VLC'' ''Playing'',
                   test_endpoint ''org.mpris.MediaPlayer2.vlc.instance2'' ''VLC'' ''Playing''],
      web = []\<rparr>"


subsection \<open>Notions the properties are stated with\<close>

text \<open>What \<^verbatim>\<open>update_players\<close> enumerates in a world.\<close>

definition registry :: "'w env \<Rightarrow> 'w \<Rightarrow> player list reply" where
  "registry env w =
     (case list_names env w of
        DBusException \<Rightarrow> DBusException
      | Reply names \<Rightarrow> get_objects env w names [])"

text \<open>The playback statuses a pause call reads: each target is asked in its turn, after
  Pause has been called on the targets before it.\<close>

fun pause_reads :: "'w env \<Rightarrow> 'w \<Rightarrow> (string \<times> player) list \<Rightarrow> string reply list" where
  "pause_reads env w [] = []"
| "pause_reads env w ((b, iface) # players) =
     PlaybackStatus env w iface # pause_reads env (snd (invoke env w iface Pause)) players"

text \<open>A pause call finds an endpoint playing.\<close>

definition pause_finds_playing :: "'w env \<Rightarrow> string option \<Rightarrow> 'w state \<Rightarrow> bool" where
  "pause_finds_playing env player_name s =
     (case get_matching_players env player_name s of
        (Inl e, s1) \<Rightarrow> False
      | (Inr players, s1) \<Rightarrow> Reply ''Playing'' \<in> set (pause_reads env (world s1) players))"

text \<open>Some resolved target reports the status Playing when the operation starts.\<close>

definition targets_playing :: "'w env \<Rightarrow> string option \<Rightarrow> 'w state \<Rightarrow> bool" where
  "targets_playing env player_name s =
     (case get_matching_players env player_name s of
        (Inl e, s1) \<Rightarrow> False
      | (Inr players, s1) \<Rightarrow>
          list_ex (\<lambda>(b, iface). PlaybackStatus env (world s1) iface = Reply ''Playing'') players)"

text \<open>The public operations, and a run on a controller: public operations in any order,
  and between them the world may change by itself (players start, stop and quit). A run
  carries, beside the state, whether the controller is between a pause call that found an
  endpoint playing and the next play call; toggle counts as the call it delegates to.\<close>

datatype operation =
    OpPause "string option"
  | OpPlay "string option"
  | OpToggle "string option"
  | OpStop "string option"
  | OpNext "string option"
  | OpPrevious "string option"
  | OpStatus "string option"
  | OpTitle "string option"
  | OpArtist "string option"
  | OpThumbnail "string option"
  | OpActivePlayerName
  | OpPlayerNames bool

fun step :: "'w env \<Rightarrow> operation \<Rightarrow> 'w state \<Rightarrow> 'w state" where
  "step env (OpPause n) s = snd (pause env n s)"
| "step env (OpPlay n) s = snd (play env n s)"
| "step env (OpToggle n) s = snd (toggle env n s)"
| "step env (OpStop n) s = snd (stop env n s)"
| "step env (OpNext n) s = snd (next_track env n s)"
| "step env (OpPrevious n) s = snd (previous env n s)"
| "step env (OpStatus n) s = snd (status env n s)"
| "step env (OpTitle n) s = snd (title env n s)"
| "step env (OpArtist n) s = snd (artist env n s)"
| "step env (OpThumbnail n) s = snd (thumbnail env n s)"
| "step env OpActivePlayerName s = snd (get_active_player_name env s)"
| "step env (OpPlayerNames d) s = snd (get_player_names env d s)"

fun after_pause :: "'w env \<Rightarrow> operation \<Rightarrow> 'w state \<Rightarrow> bool \<Rightarrow> bool" where
  "after_pause env (OpPause n) s armed = (pause_finds_playing env n s \<or> armed)"
| "after_pause env (OpPlay n) s armed = False"
| "after_pause env (OpToggle n) s armed =
     (if targets_playing env n s then pause_finds_playing env n s \<or> armed else False)"
| "after_pause env _ s armed = armed"

datatype 'w action = Operation operation | WorldChange 'w

fun act :: "'w env \<Rightarrow> 'w action \<Rightarrow> bool \<times> 'w state \<Rightarrow> bool \<times> 'w state" where
  "act env (Operation operation) (armed, s) =
     (after_pause env operation s armed, step env operation s)"
| "act env (WorldChange w) (armed, s) = (armed, s\<lparr>world := w\<rparr>)"

fun run :: "'w env \<Rightarrow> 'w action list \<Rightarrow> bool \<times> 'w state \<Rightarrow> bool \<times> 'w state" where
  "run env [] (armed, s) = (armed, s)"
| "run env (a # actions) (armed, s) = run env actions (act env a (armed, s))"

text \<open>An example: pause everything, the players on the bus change, ask for the status.\<close>

definition example_run :: "test_world action list" where
  "example_run =
     [Operation (OpPause None), WorldChange world_twins, Operation (OpStatus None)]"

text \<open>The invariant of a run: the resume set is non-empty exactly when the run is in
  that interval, and it is empty while the registry has never been assigned.\<close>

definition idle_or_armed :: "bool \<Rightarrow> 'w state \<Rightarrow> bool" where
  "idle_or_armed armed s \<longleftrightarrow>
     (previously_playing s \<noteq> {} \<longleftrightarrow> armed) \<and>
     (mpris_players s = None \<longrightarrow> previously_playing s = {})"



section \<open>Properties\<close>

subsection \<open>The registry and the resolved targets\<close>

lemma update_players_registry:
  "update_players env s =
     (case registry env (world s) of
        DBusException \<Rightarrow> s
      | Reply players \<Rightarrow> s\<lparr>mpris_players := Some players\<rparr>)"
  by (simp add: update_players_def registry_def split: reply.splits)

lemma update_players_frame [simp]:
  "world (update_players env s) = world s"
  "trace (update_players env s) = trace s"
  "previously_playing (update_players env s) = previously_playing s"
  "last_active_player (update_players env s) = last_active_player s"
  "lru_cache (update_players env s) = lru_cache s"
  by (simp_all add: update_players_registry split: reply.splits)

lemma update_players_idem [simp]:
  "update_players env (update_players env s) = update_players env s"
  by (simp add: update_players_registry split: reply.splits)

lemma update_players_stale:
  "registry env (world s) \<noteq> DBusException \<Longrightarrow>
     update_players env (s\<lparr>mpris_players := ps\<rparr>) = update_players env s"
  by (simp add: update_players_registry split: reply.splits)

lemma get_matching_players_state:
  "snd (get_matching_players env n s) = update_players env s"
  by (simp add: get_matching_players_def Let_def split: option.splits)

lemma get_matching_players_idem [simp]:
  "get_matching_players env n (update_players env s) = get_matching_players env n s"
  by (simp add: get_matching_players_def)

lemma get_matching_ifaces_state:
  "snd (get_matching_ifaces env n s) = update_players env s"
  by (simp add: get_matching_ifaces_def Let_def split: option.splits)

lemma get_matching_ifaces_idem [simp]:
  "get_matching_ifaces env n (update_players env s) = get_matching_ifaces env n s"
  by (simp add: get_matching_ifaces_def)

lemma remote_call_frame [simp]:
  "previously_playing (snd (remote_call env iface m s)) = previously_playing s"
  "mpris_players (snd (remote_call env iface m s)) = mpris_players s"
  "last_active_player (snd (remote_call env iface m s)) = last_active_player s"
  "lru_cache (snd (remote_call env iface m s)) = lru_cache s"
  "world (snd (remote_call env iface m s)) = snd (invoke env (world s) iface m)"
  "trace (snd (remote_call env iface m s)) = trace s @ [Call (bus_name iface) m]"
  by (simp_all add: remote_call_def split: prod.splits)

lemma any_playing_iff:
  "any_playing env s players \<longleftrightarrow>
     list_ex (\<lambda>(b, iface). PlaybackStatus env (world s) iface = Reply ''Playing'') players"
  by (induction players) (auto simp: get_playback_status_def split: reply.splits if_splits)

lemma pause_idem: "pause env n (update_players env s) = pause env n s"
  by (simp add: pause_def)

lemma play_idem: "play env n (update_players env s) = play env n s"
  by (simp add: play_def)

lemma toggle_eq:
  "toggle env player_name s =
     (if targets_playing env player_name s then pause env player_name s
      else play env player_name s)"
proof (cases "get_matching_players env player_name s")
  case (Pair r s1)
  have s1: "s1 = update_players env s"
    using get_matching_players_state [of env player_name s] Pair by simp
  show ?thesis
  proof (cases r)
    case (Inl e)
    with Pair show ?thesis
      by (simp add: toggle_def targets_playing_def play_def)
  next
    case (Inr players)
    with Pair s1 show ?thesis
      by (simp add: toggle_def targets_playing_def any_playing_iff pause_idem play_idem)
  qed
qed

lemma resolve_all:
  assumes "registry env (world s) = Reply ps"
    and "\<forall>p\<in>set ps. Identity env (world s) p \<noteq> DBusException"
  shows "get_matching_players env None s =
           (Inr (map (\<lambda>p. (bus_name p, p)) ps), s\<lparr>mpris_players := Some ps\<rparr>)"
proof -
  have loop: "\<forall>p\<in>set qs. Identity env w p \<noteq> DBusException \<Longrightarrow>
      matching_players_loop env w None qs acc = acc @ map (\<lambda>p. (bus_name p, p)) qs" for qs acc w
  proof (induction qs arbitrary: acc)
    case Nil
    show ?case by simp
  next
    case (Cons q qs)
    then obtain i where "Identity env w q = Reply i" by (cases "Identity env w q") auto
    with Cons show ?case by (simp add: get_bus_name_def)
  qed
  from assms show ?thesis
    by (simp add: get_matching_players_def update_players_registry Let_def loop)
qed

lemma remote_call_eq:
  "remote_call env iface m s =
     (fst (invoke env (world s) iface m) = Reply (),
      s\<lparr>world := snd (invoke env (world s) iface m),
        trace := trace s @ [Call (bus_name iface) m]\<rparr>)"
  by (simp add: remote_call_def split: prod.splits)

subsection \<open>The resume set under pause and play\<close>

lemma update_players_None:
  "mpris_players (update_players env s) = None \<Longrightarrow> mpris_players s = None"
  by (simp add: update_players_registry split: reply.splits)

lemma pause_loop_frame:
  "previously_playing (snd (snd (pause_loop env players st cp s))) = previously_playing s
   \<and> mpris_players (snd (snd (pause_loop env players st cp s))) = mpris_players s"
proof (induction players arbitrary: st cp s)
  case Nil
  show ?case by simp
next
  case (Cons p players)
  obtain b iface where p: "p = (b, iface)" by (cases p)
  obtain ok s' where r: "remote_call env iface Pause s = (ok, s')"
    by (cases "remote_call env iface Pause s")
  have "previously_playing s' = previously_playing s" "mpris_players s' = mpris_players s"
    using remote_call_frame(1,2) [of env iface Pause s] r by simp_all
  with Cons.IH [of _ _ s'] p r show ?case by (simp add: Let_def)
qed

lemma pause_loop_playing:
  "fst (snd (pause_loop env players st cp s)) \<noteq> {} \<longleftrightarrow>
     cp \<noteq> {} \<or> Reply ''Playing'' \<in> set (pause_reads env (world s) players)"
proof (induction players arbitrary: st cp s)
  case Nil
  show ?case by simp
next
  case (Cons p players)
  obtain b iface where p: "p = (b, iface)" by (cases p)
  obtain ok s' where r: "remote_call env iface Pause s = (ok, s')"
    by (cases "remote_call env iface Pause s")
  have w: "world s' = snd (invoke env (world s) iface Pause)"
    using remote_call_frame(5) [of env iface Pause s] r by simp
  show ?case
    using Cons.IH [of _ _ s'] p r w
    by (auto simp: Let_def get_playback_status_def split: reply.splits)
qed

lemma pause_previously_playing:
  "previously_playing (snd (pause env n s)) \<noteq> {} \<longleftrightarrow>
     pause_finds_playing env n s \<or> previously_playing s \<noteq> {}"
proof (cases "get_matching_players env n s")
  case (Pair r s1)
  have s1: "s1 = update_players env s"
    using get_matching_players_state [of env n s] Pair by simp
  show ?thesis
  proof (cases r)
    case (Inl e)
    with Pair s1 show ?thesis by (simp add: pause_def pause_finds_playing_def)
  next
    case (Inr players)
    obtain st cp s2 where l: "pause_loop env players [] {} s1 = (st, cp, s2)"
      by (cases "pause_loop env players [] {} s1") auto
    have "cp \<noteq> {} \<longleftrightarrow> Reply ''Playing'' \<in> set (pause_reads env (world s1) players)"
      using pause_loop_playing [of env players "[]" "{}" s1] l by simp
    moreover have "previously_playing s2 = previously_playing s"
      using pause_loop_frame [of env players "[]" "{}" s1] l s1 by simp
    ultimately show ?thesis
      using Pair Inr l by (simp add: pause_def pause_finds_playing_def)
  qed
qed

lemma pause_mpris:
  "mpris_players (snd (pause env n s)) = mpris_players (update_players env s)"
proof (cases "get_matching_players env n s")
  case (Pair r s1)
  have s1: "s1 = update_players env s"
    using get_matching_players_state [of env n s] Pair by simp
  show ?thesis
  proof (cases r)
    case (Inl e)
    with Pair s1 show ?thesis by (simp add: pause_def)
  next
    case (Inr players)
    obtain st cp s2 where l: "pause_loop env players [] {} s1 = (st, cp, s2)"
      by (cases "pause_loop env players [] {} s1") auto
    have "mpris_players s2 = mpris_players s1"
      using pause_loop_frame [of env players "[]" "{}" s1] l by simp
    with Pair Inr l s1 show ?thesis by (simp add: pause_def)
  qed
qed

lemma play_loop_frame:
  "previously_playing (snd (play_loop env n players st s)) = previously_playing s
   \<and> mpris_players (snd (play_loop env n players st s)) = mpris_players s"
proof (induction players arbitrary: st s n)
  case Nil
  show ?case by simp
next
  case (Cons p players)
  obtain b iface where p: "p = (b, iface)" by (cases p)
  obtain ok s' where r: "remote_call env iface Play s = (ok, s')"
    by (cases "remote_call env iface Play s")
  have "previously_playing s' = previously_playing s" "mpris_players s' = mpris_players s"
    using remote_call_frame(1,2) [of env iface Play s] r by simp_all
  with p r show ?case by (simp add: Cons.IH)
qed

lemma get_matching_players_Inl:
  "fst (get_matching_players env n s) = Inl e \<longleftrightarrow>
     e = AttributeError \<and> mpris_players (update_players env s) = None"
  by (auto simp: get_matching_players_def Let_def split: option.splits)

lemma play_previously_playing:
  "previously_playing (snd (play env n s)) =
     (if mpris_players (update_players env s) = None then previously_playing s else {})"
proof (cases "get_matching_players env n s")
  case (Pair r s1)
  have s1: "s1 = update_players env s"
    using get_matching_players_state [of env n s] Pair by simp
  show ?thesis
  proof (cases r)
    case (Inl e)
    with Pair s1 get_matching_players_Inl [of env n s e] show ?thesis by (simp add: play_def)
  next
    case (Inr players)
    obtain ps where "mpris_players (update_players env s) = Some ps"
      using Pair Inr by (auto simp: get_matching_players_def Let_def split: option.splits)
    with Pair Inr show ?thesis by (simp add: play_def split: prod.splits)
  qed
qed

lemma play_mpris:
  "mpris_players (snd (play env n s)) = mpris_players (update_players env s)"
proof (cases "get_matching_players env n s")
  case (Pair r s1)
  have s1: "s1 = update_players env s"
    using get_matching_players_state [of env n s] Pair by simp
  show ?thesis
  proof (cases r)
    case (Inl e)
    with Pair s1 show ?thesis by (simp add: play_def)
  next
    case (Inr players)
    obtain st s2 where l: "play_loop env n players [] s1 = (st, s2)"
      by (cases "play_loop env n players [] s1")
    have "mpris_players s2 = mpris_players s1"
      using play_loop_frame [of env n players "[]" s1] l by simp
    with Pair Inr l s1 show ?thesis by (simp add: play_def)
  qed
qed

subsection \<open>Operations that leave the resume set alone\<close>

lemma command_loop_frame:
  "previously_playing (snd (command_loop env m ifaces st s)) = previously_playing s
   \<and> mpris_players (snd (command_loop env m ifaces st s)) = mpris_players s"
proof (induction ifaces arbitrary: st s)
  case Nil
  show ?case by simp
next
  case (Cons iface ifaces)
  obtain ok s' where r: "remote_call env iface m s = (ok, s')"
    by (cases "remote_call env iface m s")
  have "previously_playing s' = previously_playing s" "mpris_players s' = mpris_players s"
    using remote_call_frame(1,2) [of env iface m s] r by simp_all
  with r show ?case by (simp add: Cons.IH)
qed

lemma command_frame:
  "previously_playing (snd (command env m n s)) = previously_playing s
   \<and> mpris_players (snd (command env m n s)) = mpris_players (update_players env s)"
proof (cases "get_matching_ifaces env n s")
  case (Pair r s1)
  have s1: "s1 = update_players env s"
    using get_matching_ifaces_state [of env n s] Pair by simp
  show ?thesis
  proof (cases r)
    case (Inl e)
    with Pair s1 show ?thesis by (simp add: command_def)
  next
    case (Inr ifaces)
    obtain st s2 where l: "command_loop env m ifaces [] s1 = (st, s2)"
      by (cases "command_loop env m ifaces [] s1")
    have "previously_playing s2 = previously_playing s1" "mpris_players s2 = mpris_players s1"
      using command_loop_frame [of env m ifaces "[]" s1] l by simp_all
    with Pair Inr l s1 show ?thesis by (simp add: command_def)
  qed
qed

lemma query_frame:
  "snd (status env n s) = update_players env s"
  "snd (title env n s) = update_players env s"
  "snd (artist env n s) = update_players env s"
  using get_matching_ifaces_state [of env n s]
  by (auto simp: status_def title_def artist_def split: prod.splits sum.splits)

lemma download_file_frame:
  "previously_playing (snd (download_file env url path fn s)) = previously_playing s
   \<and> mpris_players (snd (download_file env url path fn s)) = mpris_players s
   \<and> lru_cache (snd (download_file env url path fn s)) = lru_cache s"
  by (simp add: download_file_def Let_def
      split: prod.splits option.splits list.splits bool.splits if_splits)

lemma get_web_thumnail_frame:
  "previously_playing (snd (get_web_thumnail env url s)) = previously_playing s
   \<and> mpris_players (snd (get_web_thumnail env url s)) = mpris_players s"
proof (cases "map_of (lru_cache s) url")
  case (Some v)
  then show ?thesis by (simp add: get_web_thumnail_def)
next
  case None
  define path where
    "path = path_join env (path_join env (DATA_PATH env) ''com_core447_MediaPlugin'') ''cache''"
  obtain r s' where d: "download_file env url path None s = (r, s')"
    by (cases "download_file env url path None s")
  have "previously_playing s' = previously_playing s" "mpris_players s' = mpris_players s"
    using download_file_frame [of env url path None s] d by simp_all
  with None d show ?thesis
    by (simp add: get_web_thumnail_def path_def [symmetric] split: sum.splits)
qed

lemma thumbnail_path_frame:
  "previously_playing (snd (thumbnail_path env path s)) = previously_playing s
   \<and> mpris_players (snd (thumbnail_path env path s)) = mpris_players s"
proof (cases "startswith path ''https''")
  case False
  then show ?thesis by (simp add: thumbnail_path_def)
next
  case True
  obtain r s' where g: "get_web_thumnail env path s = (r, s')"
    by (cases "get_web_thumnail env path s")
  have "previously_playing s' = previously_playing s" "mpris_players s' = mpris_players s"
    using get_web_thumnail_frame [of env path s] g by simp_all
  with True g show ?thesis
    by (simp add: thumbnail_path_def split: sum.splits option.splits)
qed

lemma thumbnail_try_frame:
  "previously_playing (snd (thumbnail_try env iface k s)) = previously_playing s
   \<and> mpris_players (snd (thumbnail_try env iface k s)) = mpris_players s"
  by (simp add: thumbnail_try_def thumbnail_path_frame
      split: reply.splits option.splits list.splits)

lemma thumbnail_loop_frame:
  "previously_playing (snd (thumbnail_loop env ifaces acc s)) = previously_playing s
   \<and> mpris_players (snd (thumbnail_loop env ifaces acc s)) = mpris_players s"
proof (induction ifaces arbitrary: acc s)
  case Nil
  show ?case by simp
next
  case (Cons iface ifaces)
  obtain r s' where t: "thumbnail_try env iface (length acc) s = (r, s')"
    by (cases "thumbnail_try env iface (length acc) s")
  have "previously_playing s' = previously_playing s" "mpris_players s' = mpris_players s"
    using thumbnail_try_frame [of env iface "length acc" s] t by simp_all
  with t show ?case by (simp add: Cons.IH split: sum.splits)
qed

lemma thumbnail_frame:
  "previously_playing (snd (thumbnail env n s)) = previously_playing s
   \<and> mpris_players (snd (thumbnail env n s)) = mpris_players (update_players env s)"
proof (cases "get_matching_ifaces env n s")
  case (Pair r s1)
  have s1: "s1 = update_players env s"
    using get_matching_ifaces_state [of env n s] Pair by simp
  show ?thesis
  proof (cases r)
    case (Inl e)
    with Pair s1 show ?thesis by (simp add: thumbnail_def)
  next
    case (Inr ifaces)
    obtain r2 s2 where l: "thumbnail_loop env ifaces [] s1 = (r2, s2)"
      by (cases "thumbnail_loop env ifaces [] s1")
    have "previously_playing s2 = previously_playing s1" "mpris_players s2 = mpris_players s1"
      using thumbnail_loop_frame [of env ifaces "[]" s1] l by simp_all
    with Pair Inr l s1 show ?thesis by (simp add: thumbnail_def split: sum.splits)
  qed
qed

lemma get_active_player_name_frame:
  "previously_playing (snd (get_active_player_name env s)) = previously_playing s
   \<and> mpris_players (snd (get_active_player_name env s)) = mpris_players (update_players env s)"
  by (simp add: get_active_player_name_def Let_def split: option.splits)

lemma get_player_names_frame:
  "snd (get_player_names env d s) = s"
  by (simp add: get_player_names_def split: option.splits)

subsection \<open>The state machine\<close>

lemma pause_finds_playing_idem:
  "pause_finds_playing env n (update_players env s) = pause_finds_playing env n s"
  by (simp add: pause_finds_playing_def)

lemma step_other:
  assumes "operation \<notin> range OpPause \<union> range OpPlay \<union> range OpToggle"
  shows "previously_playing (step env operation s) = previously_playing s"
  using assms
  by (cases operation)
    (simp_all add: stop_def next_track_def previous_def command_frame query_frame
      thumbnail_frame get_active_player_name_frame get_player_names_frame)

lemma step_mpris_None:
  "mpris_players (step env operation s) = None \<Longrightarrow> mpris_players s = None"
  by (cases operation)
    (auto simp: stop_def next_track_def previous_def command_frame query_frame
      thumbnail_frame get_active_player_name_frame get_player_names_frame
      pause_mpris play_mpris toggle_eq
      dest: update_players_None split: if_splits)

lemma step_pause_invariant:
  assumes "idle_or_armed armed s"
  shows "idle_or_armed (pause_finds_playing env n s \<or> armed) (snd (pause env n s))"
proof -
  have a: "previously_playing (snd (pause env n s)) \<noteq> {} \<longleftrightarrow>
      pause_finds_playing env n s \<or> previously_playing s \<noteq> {}"
    by (rule pause_previously_playing)
  have b: "mpris_players (snd (pause env n s)) = None \<Longrightarrow> previously_playing (snd (pause env n s)) = {}"
  proof -
    assume n: "mpris_players (snd (pause env n s)) = None"
    then have u: "mpris_players (update_players env s) = None" by (simp add: pause_mpris)
    then have "mpris_players s = None" by (rule update_players_None)
    with assms have e: "previously_playing s = {}" by (simp add: idle_or_armed_def)
    from u have "\<not> pause_finds_playing env n s"
      by (simp add: pause_finds_playing_def get_matching_players_def Let_def)
    with a e show ?thesis by simp
  qed
  from a b assms show ?thesis by (auto simp: idle_or_armed_def)
qed

lemma step_play_invariant:
  assumes "idle_or_armed armed s"
  shows "idle_or_armed False (snd (play env n s))"
proof (cases "mpris_players (update_players env s)")
  case None
  then have "mpris_players s = None" by (rule update_players_None)
  with assms have "previously_playing s = {}" by (simp add: idle_or_armed_def)
  with None show ?thesis by (simp add: idle_or_armed_def play_previously_playing)
next
  case (Some ps)
  then show ?thesis by (simp add: idle_or_armed_def play_previously_playing)
qed

lemma step_invariant:
  assumes "idle_or_armed armed s"
  shows "idle_or_armed (after_pause env operation s armed) (step env operation s)"
proof -
  consider (pause) n where "operation = OpPause n"
    | (play) n where "operation = OpPlay n"
    | (toggle) n where "operation = OpToggle n"
    | (other) "operation \<notin> range OpPause \<union> range OpPlay \<union> range OpToggle"
    by (cases operation) auto
  then show ?thesis
  proof cases
    case pause
    with step_pause_invariant [OF assms] show ?thesis by simp
  next
    case play
    with step_play_invariant [OF assms] show ?thesis by simp
  next
    case toggle
    with step_pause_invariant [OF assms, of env n] step_play_invariant [OF assms, of env n]
    show ?thesis by (simp add: toggle_eq)
  next
    case other
    have p: "previously_playing (step env operation s) = previously_playing s"
      using other by (rule step_other)
    have a: "after_pause env operation s armed = armed"
      using other by (cases operation) simp_all
    have "mpris_players (step env operation s) = None \<Longrightarrow> mpris_players s = None"
      by (rule step_mpris_None)
    with p a assms show ?thesis by (auto simp: idle_or_armed_def)
  qed
qed

lemma act_invariant:
  assumes "idle_or_armed armed s"
  shows "idle_or_armed (fst (act env a (armed, s))) (snd (act env a (armed, s)))"
proof (cases a)
  case (Operation operation)
  with step_invariant [OF assms, of env operation] show ?thesis by simp
next
  case (WorldChange w)
  with assms show ?thesis by (simp add: idle_or_armed_def)
qed

lemma run_invariant:
  "idle_or_armed armed s \<Longrightarrow>
     idle_or_armed (fst (run env actions (armed, s))) (snd (run env actions (armed, s)))"
proof (induction actions arbitrary: armed s)
  case Nil
  then show ?case by simp
next
  case (Cons a actions)
  obtain armed' s' where a: "act env a (armed, s) = (armed', s')"
    by (cases "act env a (armed, s)")
  from Cons.prems have "idle_or_armed armed' s'"
    using act_invariant [of armed s env a] a by simp
  then show ?case using Cons.IH a by simp
qed

lemma init_idle: "idle_or_armed False (init env w)"
  by (simp add: idle_or_armed_def init_def)

subsection \<open>The memoization table\<close>
















subsection \<open>Refreshing first, and one result for each target\<close>
















subsection \<open>Compression\<close>

lemma fold_count_le:
  "fold (\<lambda>e n. if e = a then n + 1 else n) xs (k::nat) \<le> k + length xs"
proof (induction xs arbitrary: k)
  case Nil
  show ?case by simp
next
  case (Cons x xs)
  have "fold (\<lambda>e n. if e = a then n + 1 else n) xs (if x = a then k + 1 else k)
          \<le> (if x = a then k + 1 else k) + length xs"
    by (rule Cons.IH)
  then show ?case by (simp split: if_splits)
qed

lemma fold_count_all:
  "fold (\<lambda>e n. if e = a then n + 1 else n) xs (k::nat) = k + length xs \<longleftrightarrow> (\<forall>x\<in>set xs. x = a)"
proof (induction xs arbitrary: k)
  case Nil
  show ?case by simp
next
  case (Cons x xs)
  show ?case
  proof (cases "x = a")
    case True
    with Cons.IH [of "k + 1"] show ?thesis by simp
  next
    case False
    have "fold (\<lambda>e n. if e = a then n + 1 else n) xs k \<le> k + length xs"
      by (rule fold_count_le)
    with False show ?thesis by simp
  qed
qed

lemma all_equal_iff: "all_equal xs \<longleftrightarrow> (\<forall>x\<in>set xs. x = xs ! 0)"
proof (cases xs)
  case Nil
  then show ?thesis by (simp add: all_equal_def)
next
  case (Cons y ys)
  have "fold (\<lambda>e n. if e = y then n + 1 else n) (y # ys) (0::nat) = 0 + length (y # ys)
          \<longleftrightarrow> (\<forall>x\<in>set (y # ys). x = y)"
    by (rule fold_count_all)
  with Cons show ?thesis by (simp add: all_equal_def Let_def)
qed

text \<open>
  C6. The compression function is a pure function of its input sequence: the empty
  sequence gives None; a non-empty sequence whose elements all equal the first gives the
  one-element sequence of the first element; every other sequence is returned unchanged.
\<close>

theorem compress_list_cases:
  "compress_list xs =
     (if xs = [] then None
      else if (\<forall>x\<in>set xs. x = hd xs) then Some [hd xs]
      else Some xs)"
proof (cases "xs = []")
  case True
  then show ?thesis by (simp add: compress_list_def)
next
  case False
  then have "all_equal xs \<longleftrightarrow> (\<forall>x\<in>set xs. x = hd xs)"
    by (simp add: all_equal_iff hd_conv_nth)
  with False show ?thesis by (simp add: compress_list_def hd_conv_nth)
qed

theorem compress_list_cases_witness:
  "compress_list ([] :: bool list) = None
   \<and> compress_list [Some ''Playing'', Some ''Playing'', Some ''Playing''] = Some [Some ''Playing'']
   \<and> compress_list [None :: string option, None] = Some [None]
   \<and> compress_list [True, False] = Some [True, False]"
  using compress_list_cases [of "[] :: bool list"]
    compress_list_cases [of "[Some ''Playing'', Some ''Playing'', Some ''Playing'']"]
    compress_list_cases [of "[None :: string option, None]"]
    compress_list_cases [of "[True, False]"]
  by simp

subsection \<open>Pause-then-play round trip\<close>

text \<open>
  C1. Three endpoints A, B and C are on the bus, A and C report the status Playing and B
  reports Paused when pause asks them. Then pause(None) records exactly the bus names of A
  and C in the resume set and calls Pause on A, B and C; the following play(None) calls
  Play on A and C only and leaves the resume set empty; and a second play(None) calls Play
  on all three. The worlds \<open>w1\<close> to \<open>w5\<close> are the ones the calls go through; the bus
  lists the three endpoints whenever the registry is refreshed.
\<close>

theorem pause_play_round_trip:
  assumes w1: "w1 = snd (invoke env (world s) pa Pause)"
    and w2: "w2 = snd (invoke env w1 pb Pause)"
    and w3: "w3 = snd (invoke env w2 pc Pause)"
    and w4: "w4 = snd (invoke env w3 pa Play)"
    and w5: "w5 = snd (invoke env w4 pc Play)"
    and reg: "\<forall>w\<in>{world s, w3, w5}. registry env w = Reply [pa, pb, pc]
                \<and> (\<forall>p\<in>{pa, pb, pc}. Identity env w p \<noteq> DBusException)"
    and names: "bus_name pb \<noteq> bus_name pa" "bus_name pb \<noteq> bus_name pc"
    and st: "PlaybackStatus env (world s) pa = Reply ''Playing''"
      "PlaybackStatus env w1 pb = Reply ''Paused''"
      "PlaybackStatus env w2 pc = Reply ''Playing''"
    and runs: "s1 = snd (pause env None s)" "s2 = snd (play env None s1)"
      "s3 = snd (play env None s2)"
  shows "previously_playing s1 = {bus_name pa, bus_name pc}
    \<and> trace s1 = trace s @ [Call (bus_name pa) Pause, Call (bus_name pb) Pause, Call (bus_name pc) Pause]
    \<and> previously_playing s2 = {}
    \<and> trace s2 = trace s1 @ [Call (bus_name pa) Play, Call (bus_name pc) Play]
    \<and> trace s3 = trace s2 @ [Call (bus_name pa) Play, Call (bus_name pb) Play, Call (bus_name pc) Play]"
proof -
  let ?targets = "[(bus_name pa, pa), (bus_name pb, pb), (bus_name pc, pc)]"
  have g0: "get_matching_players env None s = (Inr ?targets, s\<lparr>mpris_players := Some [pa, pb, pc]\<rparr>)"
    using resolve_all [of env s "[pa, pb, pc]"] reg by simp
  have p1: "previously_playing s1 = {bus_name pa, bus_name pc}"
    and t1: "trace s1 = trace s @ [Call (bus_name pa) Pause, Call (bus_name pb) Pause, Call (bus_name pc) Pause]"
    and ws1: "world s1 = w3"
    using g0 st w1 w2 w3 runs(1)
    by (simp_all add: pause_def remote_call_eq get_playback_status_def Let_def insert_commute)
  have g1: "get_matching_players env None s1 = (Inr ?targets, s1\<lparr>mpris_players := Some [pa, pb, pc]\<rparr>)"
    using resolve_all [of env s1 "[pa, pb, pc]"] reg ws1 by simp
  have p2: "previously_playing s2 = {}"
    and t2: "trace s2 = trace s1 @ [Call (bus_name pa) Play, Call (bus_name pc) Play]"
    and ws2: "world s2 = w5"
    using g1 p1 names ws1 w4 w5 runs(2)
    by (simp_all add: play_def remote_call_eq)
  have g2: "get_matching_players env None s2 = (Inr ?targets, s2\<lparr>mpris_players := Some [pa, pb, pc]\<rparr>)"
    using resolve_all [of env s2 "[pa, pb, pc]"] reg ws2 by simp
  have t3: "trace s3 = trace s2 @ [Call (bus_name pa) Play, Call (bus_name pb) Play, Call (bus_name pc) Play]"
    using g2 p2 runs(3)
    by (simp add: play_def remote_call_eq)
  from p1 t1 p2 t2 t3 show ?thesis by simp
qed

theorem pause_play_round_trip_witness:
  "previously_playing (snd (pause test_env None (init test_env world_ABC))) = {bus_A, bus_C}
   \<and> trace (snd (pause test_env None (init test_env world_ABC)))
       = [Call bus_A Pause, Call bus_B Pause, Call bus_C Pause]
   \<and> previously_playing
        (snd (play test_env None (snd (pause test_env None (init test_env world_ABC))))) = {}
   \<and> trace (snd (play test_env None (snd (pause test_env None (init test_env world_ABC)))))
       = [Call bus_A Pause, Call bus_B Pause, Call bus_C Pause, Call bus_A Play, Call bus_C Play]
   \<and> trace (snd (play test_env None
        (snd (play test_env None (snd (pause test_env None (init test_env world_ABC)))))))
       = [Call bus_A Pause, Call bus_B Pause, Call bus_C Pause, Call bus_A Play, Call bus_C Play,
          Call bus_A Play, Call bus_B Play, Call bus_C Play]"
proof -
  let ?s = "init test_env world_ABC"
  let ?w1 = "snd (invoke test_env (world ?s) player_A Pause)"
  let ?w2 = "snd (invoke test_env ?w1 player_B Pause)"
  let ?w3 = "snd (invoke test_env ?w2 player_C Pause)"
  let ?w4 = "snd (invoke test_env ?w3 player_A Play)"
  let ?w5 = "snd (invoke test_env ?w4 player_C Play)"
  have reg: "\<forall>w\<in>{world ?s, ?w3, ?w5}. registry test_env w = Reply [player_A, player_B, player_C]
                \<and> (\<forall>p\<in>{player_A, player_B, player_C}. Identity test_env w p \<noteq> DBusException)"
    by code_simp
  have names: "bus_name player_B \<noteq> bus_name player_A" "bus_name player_B \<noteq> bus_name player_C"
    by code_simp+
  have st: "PlaybackStatus test_env (world ?s) player_A = Reply ''Playing''"
    "PlaybackStatus test_env ?w1 player_B = Reply ''Paused''"
    "PlaybackStatus test_env ?w2 player_C = Reply ''Playing''"
    by code_simp+
  have t0: "trace ?s = []" by code_simp
  have b: "bus_name player_A = bus_A" "bus_name player_B = bus_B" "bus_name player_C = bus_C"
    by (simp_all add: player_A_def player_B_def player_C_def)
  show ?thesis
    using pause_play_round_trip [OF refl refl refl refl refl reg names st refl refl refl]
    by (simp add: t0 b)
qed

subsection \<open>Play with an empty filter\<close>

text \<open>
  C2, the code at the failing input. The resume set holds A. play(None) calls Play on A
  only; play with the empty string as filter, which resolves to every endpoint as None
  does, calls Play on A, B and C: the code takes the branch of a specific name for every
  filter that is not None, also the empty one.
\<close>

theorem play_empty_name_resumes_all:
  "previously_playing armed_A = {bus_A}
   \<and> trace (snd (play test_env None armed_A)) = trace armed_A @ [Call bus_A Play]
   \<and> trace (snd (play test_env (Some '''') armed_A))
       = trace armed_A @ [Call bus_A Play, Call bus_B Play, Call bus_C Play]"
  by code_simp

subsection \<open>The resume set is armed by pause only\<close>

text \<open>
  C3. In every state that a sequence of public operations reaches from a new controller,
  whatever the world does between them,
  the resume set is non-empty exactly when the run is between a pause call that found an
  endpoint with status Playing and the next play call; and an operation other than pause
  (called directly or through toggle) never makes an empty resume set non-empty.
\<close>

theorem resume_set_invariant:
  "(previously_playing (snd (run env actions (False, init env w))) \<noteq> {}
      \<longleftrightarrow> fst (run env actions (False, init env w)))
   \<and> ((\<forall>n. operation \<noteq> OpPause n \<and> operation \<noteq> OpToggle n) \<longrightarrow>
        previously_playing s = {} \<longrightarrow> previously_playing (step env operation s) = {})"
proof
  show "previously_playing (snd (run env actions (False, init env w))) \<noteq> {}
      \<longleftrightarrow> fst (run env actions (False, init env w))"
    using run_invariant [OF init_idle, of env actions env w] by (simp add: idle_or_armed_def)
next
  show "(\<forall>n. operation \<noteq> OpPause n \<and> operation \<noteq> OpToggle n) \<longrightarrow>
        previously_playing s = {} \<longrightarrow> previously_playing (step env operation s) = {}"
  proof (intro impI)
    assume o: "\<forall>n. operation \<noteq> OpPause n \<and> operation \<noteq> OpToggle n"
      and e: "previously_playing s = {}"
    show "previously_playing (step env operation s) = {}"
    proof (cases "\<exists>n. operation = OpPlay n")
      case True
      then obtain n where "operation = OpPlay n" by blast
      with e show ?thesis by (simp add: play_previously_playing)
    next
      case False
      with o have "operation \<notin> range OpPause \<union> range OpPlay \<union> range OpToggle"
        by auto
      then have "previously_playing (step env operation s) = previously_playing s"
        by (rule step_other)
      with e show ?thesis by simp
    qed
  qed
qed

theorem resume_set_invariant_witness:
  "previously_playing (snd (run test_env example_run (False, init test_env world_ABC)))
     = {bus_A, bus_C}
   \<and> fst (run test_env example_run (False, init test_env world_ABC))
   \<and> previously_playing (init test_env world_ABC) = {}
   \<and> previously_playing (step test_env (OpStop None) (init test_env world_ABC)) = {}"
proof -
  have e1: "previously_playing (snd (run test_env example_run (False, init test_env world_ABC)))
     = {bus_A, bus_C}"
    by code_simp
  have e2: "previously_playing (init test_env world_ABC) = {}"
    by code_simp
  have e3: "\<forall>n. OpStop None \<noteq> OpPause n \<and> OpStop None \<noteq> OpToggle n"
    by simp
  show ?thesis
    using resume_set_invariant [of test_env example_run world_ABC
        "OpStop None" "init test_env world_ABC"] e1 e2 e3
    by simp
qed

subsection \<open>Pause with nothing playing\<close>

text \<open>
  C4. For every controller state and every pause call in which no resolved target reports
  the status Playing, the resume set after the call is the resume set before it. In
  particular a second pause(None) that finds nothing playing keeps the set the first one
  armed.
\<close>

theorem pause_keeps_resume_set:
  assumes nf: "\<not> pause_finds_playing env player_name s"
  shows "previously_playing (snd (pause env player_name s)) = previously_playing s"
proof (cases "get_matching_players env player_name s")
  case (Pair r s1)
  have s1: "s1 = update_players env s"
    using get_matching_players_state [of env player_name s] Pair by simp
  show ?thesis
  proof (cases r)
    case (Inl e)
    with Pair s1 show ?thesis by (simp add: pause_def)
  next
    case (Inr players)
    obtain st cp s2 where l: "pause_loop env players [] {} s1 = (st, cp, s2)"
      by (cases "pause_loop env players [] {} s1") auto
    have "cp \<noteq> {} \<longleftrightarrow> Reply ''Playing'' \<in> set (pause_reads env (world s1) players)"
      using pause_loop_playing [of env players "[]" "{}" s1] l by simp
    with nf Pair Inr have "cp = {}" by (simp add: pause_finds_playing_def)
    moreover have "previously_playing s2 = previously_playing s"
      using pause_loop_frame [of env players "[]" "{}" s1] l s1 by simp
    ultimately show ?thesis
      using Pair Inr l by (simp add: pause_def)
  qed
qed

theorem pause_keeps_resume_set_witness:
  "\<not> pause_finds_playing test_env None (snd (pause test_env None (init test_env world_ABC)))
   \<and> previously_playing
        (snd (pause test_env None (snd (pause test_env None (init test_env world_ABC)))))
       = {bus_A, bus_C}"
proof -
  have h: "\<not> pause_finds_playing test_env None (snd (pause test_env None (init test_env world_ABC)))"
    by code_simp
  have e: "previously_playing (snd (pause test_env None (init test_env world_ABC))) = {bus_A, bus_C}"
    by code_simp
  show ?thesis
    using pause_keeps_resume_set [OF h] h e by simp
qed

subsection \<open>Toggle\<close>

text \<open>
  C5. For every filter and every controller state: if some resolved target reports the
  status Playing, toggle returns what pause returns and ends in the state pause ends in;
  if none does, the same with play. (The scan stops at the first match; reading a status
  changes nothing, so stopping early cannot be observed.)
\<close>

theorem toggle_delegates:
  "toggle env player_name s =
     (if targets_playing env player_name s then pause env player_name s
      else play env player_name s)"
proof (cases "get_matching_players env player_name s")
  case (Pair r s1)
  have s1: "s1 = update_players env s"
    using get_matching_players_state [of env player_name s] Pair by simp
  show ?thesis
  proof (cases r)
    case (Inl e)
    with Pair show ?thesis
      by (simp add: toggle_def targets_playing_def play_def)
  next
    case (Inr players)
    with Pair s1 show ?thesis
      by (simp add: toggle_def targets_playing_def any_playing_iff pause_idem play_idem)
  qed
qed

theorem toggle_delegates_witness:
  "targets_playing test_env None (init test_env world_ABC)
   \<and> toggle test_env None (init test_env world_ABC) = pause test_env None (init test_env world_ABC)
   \<and> \<not> targets_playing test_env (Some ''mpv'') (init test_env world_ABC)
   \<and> toggle test_env (Some ''mpv'') (init test_env world_ABC)
       = play test_env (Some ''mpv'') (init test_env world_ABC)"
proof -
  have a: "targets_playing test_env None (init test_env world_ABC)"
    by code_simp
  have b: "\<not> targets_playing test_env (Some ''mpv'') (init test_env world_ABC)"
    by code_simp
  show ?thesis
    using toggle_delegates [of test_env None "init test_env world_ABC"]
      toggle_delegates [of test_env "Some ''mpv''" "init test_env world_ABC"] a b
    by simp
qed

subsection \<open>An exception that leaves thumbnail\<close>

text \<open>
  C7, the code at the failing input. The artwork reference of the only player is
  \<^verbatim>\<open>data:abc\<close>, an inline-data reference without a comma. The tuple assignment of
  \<^verbatim>\<open>path.split(',', 1)\<close> raises \<^verbatim>\<open>ValueError\<close>, which no handler of
  \<^verbatim>\<open>thumbnail\<close> catches: the call raises to its caller. A reference with a comma
  and no semicolon, \<^verbatim>\<open>data:abc,xyz\<close>, raises \<^verbatim>\<open>IndexError\<close> one line later, and
  that one is caught and becomes None.
\<close>

theorem thumbnail_raises_ValueError:
  "fst (thumbnail test_env None (init test_env (world_art ''data:abc''))) = Inl ValueError
   \<and> fst (thumbnail test_env None (init test_env (world_art ''data:abc,xyz'')))
       = Inr (Some [None])"
  by code_simp

subsection \<open>Memoized thumbnail downloads\<close>




subsection \<open>What every operation does first and returns\<close>




subsection \<open>Artwork references with plain http\<close>

lemma not_https:
  assumes "startswith url ''http://''"
  shows "\<not> startswith url ''https''" and "\<not> startswith url ''data:''" and "url \<noteq> ''''"
proof -
  from assms obtain rest where "url = ''http://'' @ rest"
    unfolding startswith_def by (metis append_take_drop_id)
  then show "\<not> startswith url ''https''" and "\<not> startswith url ''data:''"
    and "url \<noteq> ''''"
    by (simp_all add: startswith_def)
qed

text \<open>
  C10. For an endpoint whose artwork reference begins with \<^verbatim>\<open>http://\<close>, the loop of
  thumbnail appends the reference itself, with every \<^verbatim>\<open>file://\<close> removed, as a path,
  and leaves the state as it is: no request is made and the memoization table is not
  consulted.
\<close>

theorem thumbnail_plain_http:
  assumes "Metadata env (world s) iface = Reply md"
    and "mpris_artUrl md = Some url"
    and "startswith url ''http://''"
  shows "thumbnail_try env iface k s = (Inr (Some (Path (str_replace ''file://'' '''' url))), s)
    \<and> thumbnail_loop env (iface # ifaces) thumbnails s
        = thumbnail_loop env ifaces
            (thumbnails @ [Some (Path (str_replace ''file://'' '''' url))]) s"
proof -
  have "thumbnail_path env url s = (Inr (Some (Path (str_replace ''file://'' '''' url))), s)"
    using not_https [OF assms(3)] by (simp add: thumbnail_path_def)
  then have "thumbnail_try env iface k s
      = (Inr (Some (Path (str_replace ''file://'' '''' url))), s)" for k
    using assms(1,2) not_https [OF assms(3)] by (simp add: thumbnail_try_def)
  then show ?thesis by simp
qed

theorem thumbnail_plain_http_witness:
  "thumbnail test_env None (init test_env (world_art ''http://host/file://cover.png''))
     = (Inr (Some [Some (Path ''http://host/cover.png'')]),
        init test_env (world_art ''http://host/file://cover.png''))
   \<and> trace (init test_env (world_art ''http://host/file://cover.png'')) = []
   \<and> lru_cache (init test_env (world_art ''http://host/file://cover.png'')) = []"
proof -
  let ?url = "''http://host/file://cover.png''"
  let ?s = "init test_env (world_art ?url)"
  have m: "Metadata test_env (world ?s) player_A = Reply (no_metadata\<lparr>mpris_artUrl := Some ?url\<rparr>)"
    by code_simp
  have u: "mpris_artUrl (no_metadata\<lparr>mpris_artUrl := Some ?url\<rparr>) = Some ?url"
    by simp
  have h: "startswith ?url ''http://''"
    by code_simp
  have g: "get_matching_ifaces test_env None ?s = (Inr [player_A], ?s)"
    by code_simp
  have r: "str_replace ''file://'' '''' ?url = ''http://host/cover.png''"
    by code_simp
  have c: "compress_list [Some (Path ''http://host/cover.png'')] = Some [Some (Path ''http://host/cover.png'')]"
    by code_simp
  have e: "trace ?s = []" "lru_cache ?s = []"
    by code_simp+
  show ?thesis
    using thumbnail_plain_http [OF m u h, of 0 "[]" "[]"] g r c e
    by (simp add: thumbnail_def)
qed


end
